theory Spec2Isabelle
  imports Main
begin

section \<open>Data model\<close>

text \<open>A cell is a pair (row, column) of Python integers.\<close>

type_synonym cell = "int \<times> int"

text \<open>Exceptions the modelled code can raise: \<open>list.remove\<close> of an absent element.\<close>

datatype error = ValueError

text \<open>
  Class \<open>Minesweeper\<close> (the board): only the fields read by \<open>nearby_mines\<close>.
  \<open>board\<close> is a list of rows of booleans, \<open>True\<close> where a mine lies.
\<close>

record Minesweeper =
  height :: int
  width :: int
  board :: "bool list list"

text \<open>Class \<open>Sentence\<close>: a set of cells and the number of mines among them. \<open>__eq__\<close>
  compares both fields, as equality of the record does. Python sets are finite, and so is
  every set the functions below build from finite ones; \<open>len\<close> is \<open>card\<close>.\<close>

record Sentence =
  cells :: "cell set"
  count :: int

text \<open>Class \<open>MinesweeperAI\<close>.\<close>

record MinesweeperAI =
  height :: int
  width :: int
  moves_made :: "cell set"
  mines :: "cell set"
  safes :: "cell set"
  knowledge :: "Sentence list"

section \<open>The board's oracle\<close>

text \<open>The cells visited by the two nested loops
  \<open>for i in range(cell[0]-1, cell[0]+2): for j in range(cell[1]-1, cell[1]+2)\<close>, in order.\<close>

definition neighbor_positions :: "cell \<Rightarrow> cell list" where
  "neighbor_positions c =
     concat (map (\<lambda>i. map (\<lambda>j. (i, j)) [snd c - 1 .. snd c + 1]) [fst c - 1 .. fst c + 1])"

text \<open>\<open>Minesweeper.nearby_mines\<close>: the loop body, folded over the visited cells.\<close>

fun count_mines :: "Minesweeper \<Rightarrow> cell \<Rightarrow> cell list \<Rightarrow> int \<Rightarrow> int" where
  "count_mines g c [] n = n"
| "count_mines g c ((i, j) # ps) n =
     (if (i, j) = c then count_mines g c ps n
      else if 0 \<le> i \<and> i < Minesweeper.height g \<and> 0 \<le> j \<and> j < Minesweeper.width g then
        (if board g ! nat i ! nat j then count_mines g c ps (n + 1)
         else count_mines g c ps n)
      else count_mines g c ps n)"

definition nearby_mines :: "Minesweeper \<Rightarrow> cell \<Rightarrow> int" where
  "nearby_mines g c = count_mines g c (neighbor_positions c) 0"

text \<open>The board built by \<open>Minesweeper.__init__\<close> has \<open>height\<close> rows of \<open>width\<close> entries.\<close>

definition wf_board :: "Minesweeper \<Rightarrow> bool" where
  "wf_board g \<longleftrightarrow>
     length (board g) = nat (Minesweeper.height g) \<and>
     list_all (\<lambda>row. length row = nat (Minesweeper.width g)) (board g)"

text \<open>A cell of the grid that holds a mine (\<open>is_mine\<close>, restricted to the grid).\<close>

definition real_mine :: "Minesweeper \<Rightarrow> cell \<Rightarrow> bool" where
  "real_mine g c \<longleftrightarrow>
     0 \<le> fst c \<and> fst c < Minesweeper.height g \<and> 0 \<le> snd c \<and> snd c < Minesweeper.width g \<and>
     board g ! nat (fst c) ! nat (snd c)"

section \<open>Sentence\<close>

definition known_mines :: "Sentence \<Rightarrow> cell set" where
  "known_mines s = (if int (card (cells s)) = count s then cells s else {})"

definition known_safes :: "Sentence \<Rightarrow> cell set" where
  "known_safes s = (if count s = 0 then cells s else {})"

text \<open>\<open>Sentence.mark_mine\<close> and \<open>Sentence.mark_safe\<close>.\<close>

definition mark_mine :: "Sentence \<Rightarrow> cell \<Rightarrow> Sentence" where
  "mark_mine s c =
     (if c \<in> cells s then s\<lparr>cells := cells s - {c}, count := count s - 1\<rparr> else s)"

definition mark_safe :: "Sentence \<Rightarrow> cell \<Rightarrow> Sentence" where
  "mark_safe s c = (if c \<in> cells s then s\<lparr>cells := cells s - {c}\<rparr> else s)"

section \<open>MinesweeperAI\<close>

text \<open>\<open>MinesweeperAI.__init__\<close>.\<close>

definition init_ai :: "int \<Rightarrow> int \<Rightarrow> MinesweeperAI" where
  "init_ai h w =
     \<lparr>height = h, width = w, moves_made = {}, mines = {}, safes = {}, knowledge = []\<rparr>"

text \<open>\<open>MinesweeperAI.mark_mine\<close> and \<open>MinesweeperAI.mark_safe\<close>.\<close>

definition ai_mark_mine :: "MinesweeperAI \<Rightarrow> cell \<Rightarrow> MinesweeperAI" where
  "ai_mark_mine ai c =
     ai\<lparr>mines := insert c (mines ai), knowledge := map (\<lambda>s. mark_mine s c) (knowledge ai)\<rparr>"

definition ai_mark_safe :: "MinesweeperAI \<Rightarrow> cell \<Rightarrow> MinesweeperAI" where
  "ai_mark_safe ai c =
     ai\<lparr>safes := insert c (safes ai), knowledge := map (\<lambda>s. mark_safe s c) (knowledge ai)\<rparr>"

subsection \<open>add_knowledge, step 3: the new sentence\<close>

text \<open>The loop of lines 212-220: the accumulator is (\<open>neighbors\<close>, \<open>nearby_mines\<close>).\<close>

fun scan_neighbors ::
  "MinesweeperAI \<Rightarrow> cell \<Rightarrow> cell list \<Rightarrow> cell set \<times> cell list \<Rightarrow> cell set \<times> cell list" where
  "scan_neighbors ai c [] acc = acc"
| "scan_neighbors ai c ((i, j) # ps) (neighbors, nearby) =
     (if i = fst c \<and> j = snd c then scan_neighbors ai c ps (neighbors, nearby)
      else if 0 \<le> i \<and> i < height ai \<and> 0 \<le> j \<and> j < width ai \<and>
              (i, j) \<notin> safes ai \<and> (i, j) \<notin> moves_made ai then
        (if (i, j) \<in> mines ai then scan_neighbors ai c ps (neighbors, nearby @ [(i, j)])
         else scan_neighbors ai c ps (insert (i, j) neighbors, nearby))
      else scan_neighbors ai c ps (neighbors, nearby))"

definition new_sentence :: "MinesweeperAI \<Rightarrow> cell \<Rightarrow> int \<Rightarrow> Sentence" where
  "new_sentence ai c cnt =
     (case scan_neighbors ai c (neighbor_positions c) ({}, []) of
        (neighbors, nearby) \<Rightarrow> \<lparr>cells = neighbors, count = cnt - int (length nearby)\<rparr>)"

text \<open>Steps 1 and 2: record the move and mark the cell safe.\<close>

definition record_move :: "MinesweeperAI \<Rightarrow> cell \<Rightarrow> MinesweeperAI" where
  "record_move ai c = ai_mark_safe (ai\<lparr>moves_made := insert c (moves_made ai)\<rparr>) c"

text \<open>Step 3 (lines 225-226), on the engine as steps 1 and 2 left it: the new sentence is
  built and appended; it is returned too, since step 5 refers to it again.\<close>

definition build_sentence :: "MinesweeperAI \<Rightarrow> cell \<Rightarrow> int \<Rightarrow> Sentence \<times> MinesweeperAI" where
  "build_sentence ai c cnt =
     (let n = new_sentence ai c cnt in (n, ai\<lparr>knowledge := knowledge ai @ [n]\<rparr>))"

subsection \<open>add_knowledge, step 4: direct inference\<close>

text \<open>The loop of lines 234-241: the accumulator is the pair of local sets (\<open>mines\<close>, \<open>safes\<close>).\<close>

fun collect_known :: "Sentence list \<Rightarrow> cell set \<times> cell set \<Rightarrow> cell set \<times> cell set" where
  "collect_known [] acc = acc"
| "collect_known (s # ss) (ms, sfs) = collect_known ss (ms \<union> known_mines s, sfs \<union> known_safes s)"

text \<open>Lines 243-247 add the collected cells to \<open>self.mines\<close> and \<open>self.safes\<close>.\<close>

definition direct_inference :: "MinesweeperAI \<Rightarrow> MinesweeperAI" where
  "direct_inference ai =
     (case collect_known (knowledge ai) ({}, {}) of
        (ms, sfs) \<Rightarrow> ai\<lparr>mines := mines ai \<union> ms, safes := safes ai \<union> sfs\<rparr>)"

subsection \<open>add_knowledge, step 5: subset inference\<close>

text \<open>The loop of lines 254-265: the accumulator is \<open>to_add\<close>.\<close>

fun subset_pass :: "Sentence \<Rightarrow> Sentence list \<Rightarrow> Sentence list \<Rightarrow> Sentence list" where
  "subset_pass n [] to_add = to_add"
| "subset_pass n (old # rest) to_add =
     (if cells n \<noteq> {} \<and> cells old \<noteq> cells n then
        (let t1 = (if cells old \<subseteq> cells n
                   then to_add @ [\<lparr>cells = cells n - cells old, count = count n - count old\<rparr>]
                   else to_add);
             t2 = (if cells n \<subseteq> cells old
                   then t1 @ [\<lparr>cells = cells old - cells n, count = count old - count n\<rparr>]
                   else t1)
         in subset_pass n rest t2)
      else subset_pass n rest to_add)"

definition subset_inference :: "Sentence \<Rightarrow> MinesweeperAI \<Rightarrow> MinesweeperAI" where
  "subset_inference n ai = ai\<lparr>knowledge := knowledge ai @ subset_pass n (knowledge ai) []\<rparr>"

subsection \<open>add_knowledge, step 6: simplification\<close>

text \<open>\<open>list.remove(x)\<close> deletes the first element equal to \<open>x\<close> and raises when there is none.\<close>

definition list_remove :: "'a list \<Rightarrow> 'a \<Rightarrow> error + 'a list" where
  "list_remove xs x = (if x \<in> set xs then Inr (remove1 x xs) else Inl ValueError)"

text \<open>\<open>for sentence in self.knowledge.copy(): if P(sentence): self.knowledge.remove(sentence)\<close>:
  the second argument is the copy being iterated, the third the list being mutated.\<close>

fun remove_loop :: "('a \<Rightarrow> bool) \<Rightarrow> 'a list \<Rightarrow> 'a list \<Rightarrow> error + 'a list" where
  "remove_loop P [] kn = Inr kn"
| "remove_loop P (s # rest) kn =
     (if P s then
        (case list_remove kn s of Inl e \<Rightarrow> Inl e | Inr kn' \<Rightarrow> remove_loop P rest kn')
      else remove_loop P rest kn)"

definition simplify :: "Sentence list \<Rightarrow> error + Sentence list" where
  "simplify kn =
     (case remove_loop (\<lambda>s. card (cells s) = 0) kn kn of Inl e \<Rightarrow> Inl e | Inr k1 \<Rightarrow>
      (case remove_loop (\<lambda>s. count s = 0) k1 k1 of Inl e \<Rightarrow> Inl e | Inr k2 \<Rightarrow>
       remove_loop (\<lambda>s. int (card (cells s)) = count s) k2 k2))"

subsection \<open>add_knowledge\<close>

definition add_knowledge :: "MinesweeperAI \<Rightarrow> cell \<Rightarrow> int \<Rightarrow> error + MinesweeperAI" where
  "add_knowledge ai c cnt =
     (case build_sentence (record_move ai c) c cnt of
        (n, ai3) \<Rightarrow>
          (let ai4 = direct_inference ai3;
               ai5 = subset_inference n ai4
           in case simplify (knowledge ai5) of
                Inl e \<Rightarrow> Inl e
              | Inr kn \<Rightarrow> Inr (ai5\<lparr>knowledge := kn\<rparr>)))"

text \<open>A sequence of calls \<open>add_knowledge(cell, count)\<close>, stopping at the first exception.\<close>

fun run_calls :: "MinesweeperAI \<Rightarrow> (cell \<times> int) list \<Rightarrow> error + MinesweeperAI" where
  "run_calls ai [] = Inr ai"
| "run_calls ai ((c, cnt) # rest) =
     (case add_knowledge ai c cnt of Inl e \<Rightarrow> Inl e | Inr ai' \<Rightarrow> run_calls ai' rest)"

subsection \<open>Move selection\<close>

text \<open>
  \<open>make_safe_move\<close> iterates over the set \<open>self.safes\<close>; the order in which Python visits
  a set is fixed by the interpreter, so it is a parameter \<open>enum\<close> of the model.
  The method assigns to no field: the engine is returned as it was received.
\<close>

definition make_safe_move ::
  "(cell set \<Rightarrow> cell list) \<Rightarrow> MinesweeperAI \<Rightarrow> cell option \<times> MinesweeperAI" where
  "make_safe_move enum ai =
     (let legal = filter (\<lambda>i. i \<notin> moves_made ai) (enum (safes ai))
      in (if length legal = 0 then None else Some (legal ! 0), ai))"

text \<open>
  \<open>make_random_move\<close>: \<open>rand n\<close> stands for \<open>random.randrange(n)\<close>. An empty \<open>possible\<close>
  makes \<open>randrange\<close> raise and an index out of range makes the subscript raise; the bare
  \<open>except\<close> turns both into \<open>None\<close>. \<open>possible.remove\<close> is outside the \<open>try\<close>.
\<close>

definition all_cells :: "MinesweeperAI \<Rightarrow> cell list" where
  "all_cells ai = concat (map (\<lambda>i. map (\<lambda>j. (i, j)) [0 .. width ai - 1]) [0 .. height ai - 1])"

definition make_random_move ::
  "(nat \<Rightarrow> nat) \<Rightarrow> MinesweeperAI \<Rightarrow> error + (cell option \<times> MinesweeperAI)" where
  "make_random_move rand ai =
     (case remove_loop (\<lambda>i. i \<in> mines ai \<or> i \<in> moves_made ai) (all_cells ai) (all_cells ai) of
        Inl e \<Rightarrow> Inl e
      | Inr possible \<Rightarrow>
          (let k = rand (length possible)
           in Inr (if length possible = 0 \<or> length possible \<le> k then None
                   else Some (possible ! k), ai)))"

section \<open>Specification vocabulary\<close>

text \<open>A cell the loop of step 3 does not skip: not the queried cell, inside the grid, neither
  known safe nor visited.\<close>

definition eligible :: "MinesweeperAI \<Rightarrow> cell \<Rightarrow> cell \<Rightarrow> bool" where
  "eligible ai c p \<longleftrightarrow>
     p \<noteq> c \<and> 0 \<le> fst p \<and> fst p < height ai \<and> 0 \<le> snd p \<and> snd p < width ai \<and>
     p \<notin> safes ai \<and> p \<notin> moves_made ai"

text \<open>The in-bounds grid neighbours of a cell.\<close>

definition grid_neighbors :: "MinesweeperAI \<Rightarrow> cell \<Rightarrow> cell set" where
  "grid_neighbors ai c =
     {p \<in> set (neighbor_positions c).
        p \<noteq> c \<and> 0 \<le> fst p \<and> fst p < height ai \<and> 0 \<le> snd p \<and> snd p < width ai}"

text \<open>What one iteration of the loop of step 5 appends to \<open>to_add\<close>.\<close>

definition derive :: "Sentence \<Rightarrow> Sentence \<Rightarrow> Sentence list" where
  "derive n old =
     (if cells n \<noteq> {} \<and> cells old \<noteq> cells n then
        (if cells old \<subseteq> cells n
         then [\<lparr>cells = cells n - cells old, count = count n - count old\<rparr>] else []) @
        (if cells n \<subseteq> cells old
         then [\<lparr>cells = cells old - cells n, count = count old - count n\<rparr>] else [])
      else [])"

text \<open>A sentence is true of a board when exactly \<open>count\<close> of its cells hold a mine.\<close>

definition sentence_true :: "Minesweeper \<Rightarrow> Sentence \<Rightarrow> bool" where
  "sentence_true g s \<longleftrightarrow> finite (cells s) \<and> int (card {p \<in> cells s. real_mine g p}) = count s"

text \<open>The engine agrees with a board: same grid, true sentences, every known mine a mine,
  no known safe or visited cell a mine.\<close>

definition sound_state :: "Minesweeper \<Rightarrow> MinesweeperAI \<Rightarrow> bool" where
  "sound_state g ai \<longleftrightarrow>
     height ai = Minesweeper.height g \<and> width ai = Minesweeper.width g \<and>
     list_all (sentence_true g) (knowledge ai) \<and>
     (\<forall>p \<in> mines ai. real_mine g p) \<and>
     (\<forall>p \<in> safes ai. \<not> real_mine g p) \<and>
     (\<forall>p \<in> moves_made ai. \<not> real_mine g p)"

text \<open>Calls \<open>add_knowledge(cell, count)\<close> that report the board truthfully: the cell is
  safe and \<open>count\<close> is what \<open>nearby_mines\<close> returns for it.\<close>

definition consistent_calls :: "Minesweeper \<Rightarrow> (cell \<times> int) list \<Rightarrow> bool" where
  "consistent_calls g calls \<longleftrightarrow>
     list_all (\<lambda>(c, cnt). \<not> real_mine g c \<and> cnt = nearby_mines g c) calls"

section \<open>Loops in closed form\<close>

lemma count_list_remove1:
  "count_list (remove1 s xs) x = (if x = s \<and> s \<in> set xs then count_list xs x - 1 else count_list xs x)"
  by (induction xs) auto

lemma filter_remove1_dropped: "\<not> Q s \<Longrightarrow> filter Q (remove1 s xs) = filter Q xs"
  by (induction xs) auto

lemma remove_loop_general:
  "(\<And>x. P x \<Longrightarrow> count_list cp x \<le> count_list kn x) \<Longrightarrow>
   \<exists>kn'. remove_loop P cp kn = Inr kn' \<and>
         filter (\<lambda>x. \<not> P x) kn' = filter (\<lambda>x. \<not> P x) kn \<and>
         (\<forall>x. P x \<longrightarrow> count_list kn' x = count_list kn x - count_list cp x)"
proof (induction cp arbitrary: kn)
  case Nil
  then show ?case by simp
next
  case (Cons s rest)
  show ?case
  proof (cases "P s")
    case False
    have "\<And>x. P x \<Longrightarrow> count_list rest x \<le> count_list kn x"
      using Cons.prems False by (metis count_list.simps(2))
    from Cons.IH [OF this] obtain kn' where
      "remove_loop P rest kn = Inr kn'"
      "filter (\<lambda>x. \<not> P x) kn' = filter (\<lambda>x. \<not> P x) kn"
      "\<forall>x. P x \<longrightarrow> count_list kn' x = count_list kn x - count_list rest x"
      by blast
    then show ?thesis using False by auto
  next
    case True
    have pos: "0 < count_list kn s" using Cons.prems [OF True] by simp
    then have mem: "s \<in> set kn" using count_list_0_iff [of kn s] by auto
    have pre: "\<And>x. P x \<Longrightarrow> count_list rest x \<le> count_list (remove1 s kn) x"
    proof -
      fix x assume "P x"
      from Cons.prems [OF this] show "count_list rest x \<le> count_list (remove1 s kn) x"
        by (auto simp: count_list_remove1 mem)
    qed
    from Cons.IH [OF pre] obtain kn' where r:
      "remove_loop P rest (remove1 s kn) = Inr kn'"
      "filter (\<lambda>x. \<not> P x) kn' = filter (\<lambda>x. \<not> P x) (remove1 s kn)"
      "\<forall>x. P x \<longrightarrow> count_list kn' x = count_list (remove1 s kn) x - count_list rest x"
      by blast
    have "filter (\<lambda>x. \<not> P x) kn' = filter (\<lambda>x. \<not> P x) kn"
      using r(2) True by (simp add: filter_remove1_dropped)
    moreover have "\<forall>x. P x \<longrightarrow> count_list kn' x = count_list kn x - count_list (s # rest) x"
      using r(3) by (auto simp: count_list_remove1 mem)
    ultimately show ?thesis using r(1) True mem by (simp add: list_remove_def)
  qed
qed

lemma remove_loop_filter: "remove_loop P kn kn = Inr (filter (\<lambda>x. \<not> P x) kn)"
proof -
  from remove_loop_general [of P kn kn] obtain kn' where r:
    "remove_loop P kn kn = Inr kn'"
    "filter (\<lambda>x. \<not> P x) kn' = filter (\<lambda>x. \<not> P x) kn"
    "\<forall>x. P x \<longrightarrow> count_list kn' x = count_list kn x - count_list kn x"
    by auto
  have "\<forall>x \<in> set kn'. \<not> P x"
  proof
    fix x assume "x \<in> set kn'"
    then have "0 < count_list kn' x" using count_list_0_iff [of kn' x] by auto
    then show "\<not> P x" using r(3) by auto
  qed
  then have "filter (\<lambda>x. \<not> P x) kn' = kn'" by simp
  then show ?thesis using r by simp
qed

lemma simplify_filter:
  "simplify kn = Inr (filter (\<lambda>s. card (cells s) \<noteq> 0 \<and> count s \<noteq> 0 \<and> int (card (cells s)) \<noteq> count s) kn)"
  by (simp add: simplify_def remove_loop_filter conj_commute conj_left_commute) 

lemma scan_neighbors_closed:
  "scan_neighbors ai c ps (N, M) =
     (N \<union> {p \<in> set ps. eligible ai c p \<and> p \<notin> mines ai},
      M @ filter (\<lambda>p. eligible ai c p \<and> p \<in> mines ai) ps)"
proof (induction ps arbitrary: N M)
  case Nil
  show ?case by simp
next
  case (Cons p ps)
  obtain i j where p: "p = (i, j)" by (cases p)
  show ?case unfolding p
    by (simp add: Cons.IH eligible_def) (auto simp: eligible_def)
qed

lemma collect_known_closed:
  "collect_known ss (A, B) = (A \<union> (\<Union>s \<in> set ss. known_mines s), B \<union> (\<Union>s \<in> set ss. known_safes s))"
  by (induction ss arbitrary: A B) auto

lemma subset_pass_closed: "subset_pass n kn acc = acc @ concat (map (derive n) kn)"
  by (induction kn arbitrary: acc) (simp_all add: derive_def Let_def)

lemma count_mines_closed:
  "count_mines g c ps n = n + int (length (filter (\<lambda>p. p \<noteq> c \<and> real_mine g p) ps))"
proof (induction ps arbitrary: n)
  case Nil
  show ?case by simp
next
  case (Cons p ps)
  obtain i j where p: "p = (i, j)" by (cases p)
  show ?case unfolding p by (simp add: Cons.IH real_mine_def)
qed

lemma distinct_neighbor_positions: "distinct (neighbor_positions c)"
  unfolding neighbor_positions_def
  by (rule distinct_concat) (auto simp: distinct_map inj_on_def)

section \<open>Invariant of add_knowledge\<close>

lemma add_knowledge_closed:
  "add_knowledge ai c cnt =
     Inr (let ai2 = record_move ai c;
              n = new_sentence ai2 c cnt;
              ai4 = direct_inference (ai2\<lparr>knowledge := knowledge ai2 @ [n]\<rparr>)
          in ai4\<lparr>knowledge :=
               filter (\<lambda>s. card (cells s) \<noteq> 0 \<and> count s \<noteq> 0 \<and> int (card (cells s)) \<noteq> count s)
                 (knowledge ai4 @ concat (map (derive n) (knowledge ai4)))\<rparr>)"
  by (simp add: add_knowledge_def build_sentence_def Let_def simplify_filter subset_inference_def
      subset_pass_closed)

lemma mark_safe_true:
  "sentence_true g s \<Longrightarrow> \<not> real_mine g c \<Longrightarrow> sentence_true g (mark_safe s c)"
proof -
  assume t: "sentence_true g s" and c: "\<not> real_mine g c"
  have "{p \<in> cells s - {c}. real_mine g p} = {p \<in> cells s. real_mine g p}"
    using c by auto
  then show ?thesis using t by (simp add: sentence_true_def mark_safe_def)
qed

lemma record_move_sound:
  "sound_state g ai \<Longrightarrow> \<not> real_mine g c \<Longrightarrow> sound_state g (record_move ai c)"
  by (simp add: sound_state_def record_move_def ai_mark_safe_def list_all_iff mark_safe_true)

lemma new_sentence_closed:
  "new_sentence ai c cnt =
     \<lparr>cells = {p \<in> set (neighbor_positions c). eligible ai c p \<and> p \<notin> mines ai},
      count = cnt - int (length (filter (\<lambda>p. eligible ai c p \<and> p \<in> mines ai) (neighbor_positions c)))\<rparr>"
  by (simp add: new_sentence_def scan_neighbors_closed)

lemma new_sentence_true:
  assumes s: "sound_state g ai"
  shows "sentence_true g (new_sentence ai c (nearby_mines g c))"
proof -
  let ?ps = "neighbor_positions c"
  let ?R = "{p \<in> set ?ps. p \<noteq> c \<and> real_mine g p}"
  let ?K = "{p \<in> set ?ps. eligible ai c p \<and> p \<in> mines ai}"
  let ?C = "{p \<in> set ?ps. eligible ai c p \<and> p \<notin> mines ai}"
  have d: "distinct ?ps" by (rule distinct_neighbor_positions)
  have elig: "\<And>p. p \<noteq> c \<Longrightarrow> real_mine g p \<Longrightarrow> eligible ai c p"
    using s by (auto simp: sound_state_def eligible_def real_mine_def)
  have km: "\<And>p. p \<in> ?K \<Longrightarrow> real_mine g p" using s by (auto simp: sound_state_def)
  have split: "?R = ?K \<union> {p \<in> ?C. real_mine g p}"
    using elig km by (auto simp: eligible_def)
  have disj: "?K \<inter> {p \<in> ?C. real_mine g p} = {}" by auto
  have fin: "finite ?K" "finite {p \<in> ?C. real_mine g p}" by auto
  have "card ?R = card ?K + card {p \<in> ?C. real_mine g p}"
    unfolding split using card_Un_disjoint [OF fin disj] .
  moreover have "nearby_mines g c = int (card ?R)"
  proof -
    have "{x. x \<noteq> c \<and> real_mine g x} \<inter> set ?ps = ?R" by auto
    then show ?thesis
      by (simp add: nearby_mines_def count_mines_closed distinct_length_filter [OF d])
  qed
  moreover have "length (filter (\<lambda>p. eligible ai c p \<and> p \<in> mines ai) ?ps) = card ?K"
  proof -
    have "{x. eligible ai c x \<and> x \<in> mines ai} \<inter> set ?ps = ?K" by auto
    then show ?thesis by (simp add: distinct_length_filter [OF d])
  qed
  ultimately show ?thesis
    by (simp add: new_sentence_closed sentence_true_def)
qed

lemma known_mines_real:
  assumes "sentence_true g s" "p \<in> known_mines s"
  shows "real_mine g p"
proof -
  from assms have f: "finite (cells s)" and
    e: "card {p \<in> cells s. real_mine g p} = card (cells s)" and p: "p \<in> cells s"
    by (auto simp: sentence_true_def known_mines_def split: if_splits)
  have "{p \<in> cells s. real_mine g p} = cells s"
    by (rule card_subset_eq [OF f _ e]) auto
  with p show ?thesis by auto
qed

lemma known_safes_real:
  assumes "sentence_true g s" "p \<in> known_safes s"
  shows "\<not> real_mine g p"
proof -
  from assms have f: "finite {p \<in> cells s. real_mine g p}" and
    e: "card {p \<in> cells s. real_mine g p} = 0" and p: "p \<in> cells s"
    by (auto simp: sentence_true_def known_safes_def split: if_splits)
  from e f have "{p \<in> cells s. real_mine g p} = {}" by simp
  with p show ?thesis by blast
qed

lemma direct_inference_closed:
  "direct_inference ai =
     ai\<lparr>mines := mines ai \<union> (\<Union>s \<in> set (knowledge ai). known_mines s),
        safes := safes ai \<union> (\<Union>s \<in> set (knowledge ai). known_safes s)\<rparr>"
  by (simp add: direct_inference_def collect_known_closed)

lemma direct_inference_sound:
  "sound_state g ai \<Longrightarrow> sound_state g (direct_inference ai)"
  by (auto simp: direct_inference_closed sound_state_def list_all_iff
           dest: known_mines_real known_safes_real)

lemma difference_true:
  assumes a: "sentence_true g a" and b: "sentence_true g b" and sub: "cells a \<subseteq> cells b"
  shows "sentence_true g \<lparr>cells = cells b - cells a, count = count b - count a\<rparr>"
proof -
  let ?A = "{p \<in> cells a. real_mine g p}" and ?B = "{p \<in> cells b. real_mine g p}"
  have fa: "finite ?A" using a by (simp add: sentence_true_def)
  have ab: "?A \<subseteq> ?B" using sub by auto
  have fb: "finite ?B" using b by (simp add: sentence_true_def)
  have "{p \<in> cells b - cells a. real_mine g p} = ?B - ?A" by auto
  then have "card {p \<in> cells b - cells a. real_mine g p} = card ?B - card ?A"
    using card_Diff_subset [OF fa ab] by simp
  moreover have "card ?A \<le> card ?B" using card_mono [OF fb ab] .
  ultimately show ?thesis using a b by (simp add: sentence_true_def of_nat_diff)
qed

lemma derive_true:
  "sentence_true g n \<Longrightarrow> sentence_true g old \<Longrightarrow> d \<in> set (derive n old) \<Longrightarrow> sentence_true g d"
  by (auto simp: derive_def difference_true split: if_splits)

lemma sound_state_knowledge:
  "sound_state g ai \<Longrightarrow> \<forall>s \<in> set kn. sentence_true g s \<Longrightarrow>
   sound_state g (ai\<lparr>knowledge := kn\<rparr>)"
  by (simp add: sound_state_def list_all_iff)

lemma add_knowledge_sound:
  assumes s: "sound_state g ai" and c: "\<not> real_mine g c"
  shows "\<exists>ai'. add_knowledge ai c (nearby_mines g c) = Inr ai' \<and> sound_state g ai'"
proof -
  let ?ai2 = "record_move ai c"
  let ?n = "new_sentence ?ai2 c (nearby_mines g c)"
  let ?ai3 = "?ai2\<lparr>knowledge := knowledge ?ai2 @ [?n]\<rparr>"
  let ?ai4 = "direct_inference ?ai3"
  have s2: "sound_state g ?ai2" using s c by (rule record_move_sound)
  have n: "sentence_true g ?n" using s2 by (rule new_sentence_true)
  have s3: "sound_state g ?ai3" using s2 n by (simp add: sound_state_def)
  have s4: "sound_state g ?ai4" using s3 by (rule direct_inference_sound)
  have k4: "\<forall>s \<in> set (knowledge ?ai4). sentence_true g s"
    using s4 by (simp add: sound_state_def list_all_iff)
  have d: "\<forall>d \<in> set (concat (map (derive ?n) (knowledge ?ai4))). sentence_true g d"
    using k4 n by (auto dest: derive_true)
  let ?kn = "filter (\<lambda>s. card (cells s) \<noteq> 0 \<and> count s \<noteq> 0 \<and> int (card (cells s)) \<noteq> count s)
               (knowledge ?ai4 @ concat (map (derive ?n) (knowledge ?ai4)))"
  have "\<forall>s \<in> set ?kn. sentence_true g s" using k4 d by auto
  from sound_state_knowledge [OF s4 this] show ?thesis
    by (simp add: add_knowledge_closed Let_def)
qed

lemma run_calls_sound:
  "sound_state g ai \<Longrightarrow> consistent_calls g calls \<Longrightarrow>
   \<exists>ai'. run_calls ai calls = Inr ai' \<and> sound_state g ai'"
proof (induction calls arbitrary: ai)
  case Nil
  then show ?case by simp
next
  case (Cons call calls)
  obtain c cnt where call: "call = (c, cnt)" by (cases call)
  from Cons.prems(2) have c: "\<not> real_mine g c" and cnt: "cnt = nearby_mines g c"
    and rest: "consistent_calls g calls"
    by (simp_all add: consistent_calls_def call)
  from add_knowledge_sound [OF Cons.prems(1) c] obtain ai1 where
    a: "add_knowledge ai c (nearby_mines g c) = Inr ai1" and s1: "sound_state g ai1" by blast
  from Cons.IH [OF s1 rest] show ?case by (simp add: call cnt a)
qed

section \<open>Soundness of the engine\<close>

text \<open>
  Claim C1. A call \<open>add_knowledge(cell, count)\<close> tells the engine that \<open>cell\<close> is safe and has
  \<open>count\<close> mined neighbours (its docstring: "called when the board tells us, for a given safe
  cell, how many neighbouring cells have mines in them"). For every board and every sequence
  of such calls that is truthful about that board, the calls all return, and afterwards every
  cell of \<open>mines\<close> is a mine of the board and no cell of \<open>safes\<close> is. As the sequence is
  arbitrary, this covers the engine after each prefix, hence every cell ever placed.
\<close>

theorem soundness:
  assumes "wf_board g" and "consistent_calls g calls"
  shows "\<exists>ai'. run_calls (init_ai (Minesweeper.height g) (Minesweeper.width g)) calls = Inr ai' \<and>
           (\<forall>p \<in> mines ai'. real_mine g p) \<and> (\<forall>p \<in> safes ai'. \<not> real_mine g p)"
proof -
  have "sound_state g (init_ai (Minesweeper.height g) (Minesweeper.width g))"
    by (simp add: sound_state_def init_ai_def)
  from run_calls_sound [OF this assms(2)] show ?thesis
    by (auto simp: sound_state_def)
qed

text \<open>The theorem at a 1x4 board with one mine, at (0,2), after revealing (0,1) and (0,3).\<close>

theorem soundness_witness:
  "wf_board \<lparr>Minesweeper.height = 1, width = 4, board = [[False, False, True, False]]\<rparr> \<and>
   consistent_calls
     \<lparr>Minesweeper.height = 1, width = 4, board = [[False, False, True, False]]\<rparr>
     [((0, 1), 1), ((0, 3), 1)] \<and>
   (\<exists>ai'. run_calls (init_ai 1 4) [((0, 1), 1), ((0, 3), 1)] = Inr ai' \<and>
      (\<forall>p \<in> mines ai'. real_mine
         \<lparr>Minesweeper.height = 1, width = 4, board = [[False, False, True, False]]\<rparr> p) \<and>
      (\<forall>p \<in> safes ai'. \<not> real_mine
         \<lparr>Minesweeper.height = 1, width = 4, board = [[False, False, True, False]]\<rparr> p))"
proof -
  let ?g = "\<lparr>Minesweeper.height = 1, width = 4, board = [[False, False, True, False]]\<rparr>"
  have w: "wf_board ?g" by (simp add: wf_board_def)
  have c: "consistent_calls ?g [((0, 1), 1), ((0, 3), 1)]" by code_simp
  from soundness [OF w c] w c show ?thesis by simp
qed

section \<open>Step 4 does not narrow the sentences\<close>

lemma direct_inference_knowledge: "knowledge (direct_inference ai) = knowledge ai"
  by (simp add: direct_inference_closed)

text \<open>
  Claim C2 says that the direct inference pass calls \<open>mark_mine\<close> (and \<open>mark_safe\<close>) on every
  sentence for each cell it identifies. Lines 243-247 add the cells to \<open>self.mines\<close> and
  \<open>self.safes\<close> and touch no sentence. On a 1x4 grid, after \<open>add_knowledge((0,1), 1)\<close>, the
  call \<open>add_knowledge((0,3), 1)\<close> builds the sentence {(0,2)} = 1; the pass identifies (0,2)
  as a mine and leaves both sentences as they were, where \<open>MinesweeperAI.mark_mine\<close> would
  have left {(0,0)} = 0 and {} = 0.
\<close>

theorem direct_inference_no_narrowing:
  "run_calls (init_ai 1 4) [((0, 1), 1)] =
     Inr \<lparr>height = 1, width = 4, moves_made = {(0, 1)}, mines = {}, safes = {(0, 1)},
          knowledge = [\<lparr>cells = {(0, 0), (0, 2)}, count = 1\<rparr>]\<rparr> \<and>
   build_sentence
     (record_move
        \<lparr>height = 1, width = 4, moves_made = {(0, 1)}, mines = {}, safes = {(0, 1)},
         knowledge = [\<lparr>cells = {(0, 0), (0, 2)}, count = 1\<rparr>]\<rparr> (0, 3)) (0, 3) 1 =
     (\<lparr>cells = {(0, 2)}, count = 1\<rparr>,
      \<lparr>height = 1, width = 4, moves_made = {(0, 1), (0, 3)}, mines = {},
       safes = {(0, 1), (0, 3)},
       knowledge = [\<lparr>cells = {(0, 0), (0, 2)}, count = 1\<rparr>, \<lparr>cells = {(0, 2)}, count = 1\<rparr>]\<rparr>) \<and>
   direct_inference
     \<lparr>height = 1, width = 4, moves_made = {(0, 1), (0, 3)}, mines = {},
      safes = {(0, 1), (0, 3)},
      knowledge = [\<lparr>cells = {(0, 0), (0, 2)}, count = 1\<rparr>, \<lparr>cells = {(0, 2)}, count = 1\<rparr>]\<rparr> =
     \<lparr>height = 1, width = 4, moves_made = {(0, 1), (0, 3)}, mines = {(0, 2)},
      safes = {(0, 1), (0, 3)},
      knowledge = [\<lparr>cells = {(0, 0), (0, 2)}, count = 1\<rparr>, \<lparr>cells = {(0, 2)}, count = 1\<rparr>]\<rparr> \<and>
   ai_mark_mine
     \<lparr>height = 1, width = 4, moves_made = {(0, 1), (0, 3)}, mines = {},
      safes = {(0, 1), (0, 3)},
      knowledge = [\<lparr>cells = {(0, 0), (0, 2)}, count = 1\<rparr>, \<lparr>cells = {(0, 2)}, count = 1\<rparr>]\<rparr>
     (0, 2) =
     \<lparr>height = 1, width = 4, moves_made = {(0, 1), (0, 3)}, mines = {(0, 2)},
      safes = {(0, 1), (0, 3)},
      knowledge = [\<lparr>cells = {(0, 0)}, count = 0\<rparr>, \<lparr>cells = {}, count = 0\<rparr>]\<rparr>"
  by code_simp

text \<open>
  Claim C3 says that between calls no sentence of \<open>knowledge\<close> holds a cell of \<open>mines\<close> or
  \<open>safes\<close>. After the same two calls the sentence {(0,0), (0,2)} = 1 is still in
  \<open>knowledge\<close> while (0,2) is in \<open>mines\<close>.
\<close>

theorem rest_invariant_violated:
  "run_calls (init_ai 1 4) [((0, 1), 1), ((0, 3), 1)] =
     Inr \<lparr>height = 1, width = 4, moves_made = {(0, 1), (0, 3)}, mines = {(0, 2)},
          safes = {(0, 1), (0, 3)},
          knowledge = [\<lparr>cells = {(0, 0), (0, 2)}, count = 1\<rparr>]\<rparr> \<and>
   cells \<lparr>cells = {(0, 0), (0, 2)}, count = 1\<rparr> \<inter> ({(0, 2)} \<union> {(0, 1), (0, 3)}) = {(0, 2)}"
  by code_simp

section \<open>Subset inference\<close>

text \<open>
  Claim C4 as stated, every pair of live sentences is considered, fails: on a 1x6 grid,
  after \<open>add_knowledge((0,1), 1)\<close> and \<open>add_knowledge((0,3), 1)\<close>, the call
  \<open>add_knowledge((0,4), 0)\<close> reaches step 5 with the sentences {(0,0), (0,2)} = 1,
  {(0,2)} = 1 and the new {(0,5)} = 0. The second is a strict subset of the first, and the
  sentence {(0,0)} = 0 they give is not added.
\<close>

theorem subset_pass_pairs_counterexample:
  "run_calls (init_ai 1 6) [((0, 1), 1), ((0, 3), 1)] =
     Inr \<lparr>height = 1, width = 6, moves_made = {(0, 1), (0, 3)}, mines = {},
          safes = {(0, 1), (0, 3)},
          knowledge = [\<lparr>cells = {(0, 0), (0, 2)}, count = 1\<rparr>,
                       \<lparr>cells = {(0, 2), (0, 4)}, count = 1\<rparr>]\<rparr> \<and>
   build_sentence
     (record_move
        \<lparr>height = 1, width = 6, moves_made = {(0, 1), (0, 3)}, mines = {},
         safes = {(0, 1), (0, 3)},
         knowledge = [\<lparr>cells = {(0, 0), (0, 2)}, count = 1\<rparr>,
                      \<lparr>cells = {(0, 2), (0, 4)}, count = 1\<rparr>]\<rparr> (0, 4)) (0, 4) 0 =
     (\<lparr>cells = {(0, 5)}, count = 0\<rparr>,
      \<lparr>height = 1, width = 6, moves_made = {(0, 1), (0, 3), (0, 4)}, mines = {},
       safes = {(0, 1), (0, 3), (0, 4)},
       knowledge = [\<lparr>cells = {(0, 0), (0, 2)}, count = 1\<rparr>,
                    \<lparr>cells = {(0, 2)}, count = 1\<rparr>,
                    \<lparr>cells = {(0, 5)}, count = 0\<rparr>]\<rparr>) \<and>
   knowledge (direct_inference
      \<lparr>height = 1, width = 6, moves_made = {(0, 1), (0, 3), (0, 4)}, mines = {},
       safes = {(0, 1), (0, 3), (0, 4)},
       knowledge = [\<lparr>cells = {(0, 0), (0, 2)}, count = 1\<rparr>,
                    \<lparr>cells = {(0, 2)}, count = 1\<rparr>,
                    \<lparr>cells = {(0, 5)}, count = 0\<rparr>]\<rparr>) =
     [\<lparr>cells = {(0, 0), (0, 2)}, count = 1\<rparr>, \<lparr>cells = {(0, 2)}, count = 1\<rparr>,
      \<lparr>cells = {(0, 5)}, count = 0\<rparr>] \<and>
   cells \<lparr>cells = {(0, 2)}, count = 1\<rparr> \<subset> cells \<lparr>cells = {(0, 0), (0, 2)}, count = 1\<rparr> \<and>
   \<lparr>cells = {(0, 0)}, count = 0\<rparr> \<notin>
     set (subset_pass \<lparr>cells = {(0, 5)}, count = 0\<rparr>
            [\<lparr>cells = {(0, 0), (0, 2)}, count = 1\<rparr>, \<lparr>cells = {(0, 2)}, count = 1\<rparr>,
             \<lparr>cells = {(0, 5)}, count = 0\<rparr>] [])"
  by code_simp

text \<open>
  Claim C4, amended: the pass pairs the sentence just built, \<open>n\<close>, with each sentence of
  \<open>knowledge\<close>, and only when the cell set of \<open>n\<close> is not empty. It adds the difference for
  each sentence whose cells are a strict subset of those of \<open>n\<close>, and for each sentence whose
  cells are a strict superset of those of \<open>n\<close>, and nothing else.
\<close>

theorem subset_pass_pairs:
  "set (subset_pass n kn []) =
     {\<lparr>cells = cells n - cells old, count = count n - count old\<rparr> | old.
        old \<in> set kn \<and> cells n \<noteq> {} \<and> cells old \<subset> cells n} \<union>
     {\<lparr>cells = cells old - cells n, count = count old - count n\<rparr> | old.
        old \<in> set kn \<and> cells n \<noteq> {} \<and> cells n \<subset> cells old}"
  by (auto simp: subset_pass_closed derive_def split: if_splits)

section \<open>Simplification drops derived sentences unread\<close>

text \<open>
  Claim C5 says that a sentence dropped by step 6 for having count 0 (or as many mines as
  cells) has its cells in \<open>safes\<close> (or \<open>mines\<close>) already. The sentences derived in step 5 are
  added after step 4 has run and are dropped by step 6 of the same call. On the 1x4 grid,
  after \<open>add_knowledge((0,1), 1)\<close>, the call \<open>add_knowledge((0,3), 1)\<close> derives {(0,0)} = 0
  and returns without that sentence and without (0,0) in \<open>safes\<close>. In the scenario of the
  claim, an engine holding A = {(1,1), (1,2)} = 1 with (0,1) and (0,3) visited receives
  \<open>add_knowledge((0,2), 2)\<close>, which builds B = {(1,1), (1,2), (1,3)} = 2: \<open>mines\<close> stays empty
  and the derived {(1,3)} = 1 is gone.
\<close>

theorem derived_sentence_dropped:
  "subset_pass \<lparr>cells = {(0, 2)}, count = 1\<rparr>
     [\<lparr>cells = {(0, 0), (0, 2)}, count = 1\<rparr>, \<lparr>cells = {(0, 2)}, count = 1\<rparr>] [] =
     [\<lparr>cells = {(0, 0)}, count = 0\<rparr>] \<and>
   add_knowledge
     \<lparr>height = 1, width = 4, moves_made = {(0, 1)}, mines = {}, safes = {(0, 1)},
      knowledge = [\<lparr>cells = {(0, 0), (0, 2)}, count = 1\<rparr>]\<rparr> (0, 3) 1 =
     Inr \<lparr>height = 1, width = 4, moves_made = {(0, 1), (0, 3)}, mines = {(0, 2)},
          safes = {(0, 1), (0, 3)},
          knowledge = [\<lparr>cells = {(0, 0), (0, 2)}, count = 1\<rparr>]\<rparr> \<and>
   (0, 0) \<notin> safes
     \<lparr>height = 1, width = 4, moves_made = {(0, 1), (0, 3)}, mines = {(0, 2)},
      safes = {(0, 1), (0, 3)},
      knowledge = [\<lparr>cells = {(0, 0), (0, 2)}, count = 1\<rparr>]\<rparr> \<and>
   add_knowledge
     \<lparr>height = 3, width = 5, moves_made = {(0, 1), (0, 3)}, mines = {},
      safes = {(0, 1), (0, 3)},
      knowledge = [\<lparr>cells = {(1, 1), (1, 2)}, count = 1\<rparr>]\<rparr> (0, 2) 2 =
     Inr \<lparr>height = 3, width = 5, moves_made = {(0, 1), (0, 3), (0, 2)}, mines = {},
          safes = {(0, 1), (0, 3), (0, 2)},
          knowledge = [\<lparr>cells = {(1, 1), (1, 2)}, count = 1\<rparr>,
                       \<lparr>cells = {(1, 1), (1, 2), (1, 3)}, count = 2\<rparr>]\<rparr>"
  by code_simp

section \<open>The 1x3 scenario\<close>

text \<open>
  Claim C6 as stated fails: on a 1x3 grid, after \<open>add_knowledge((0,0), 0)\<close> the cells (0,1)
  and (0,2) are not both in \<open>safes\<close>.
\<close>

theorem scenario_1x3_counterexample:
  "\<not> ((0, 1) \<in> safes (projr (add_knowledge (init_ai 1 3) (0, 0) 0)) \<and>
      (0, 2) \<in> safes (projr (add_knowledge (init_ai 1 3) (0, 0) 0)))"
  by code_simp

text \<open>
  Claim C6, amended: after that call \<open>safes\<close> is {(0,0), (0,1)}, no mine is placed and no
  sentence is kept; (0,2) is not adjacent to (0,0) and stays unclassified.
\<close>

theorem scenario_1x3:
  "add_knowledge (init_ai 1 3) (0, 0) 0 =
     Inr \<lparr>height = 1, width = 3, moves_made = {(0, 0)}, mines = {},
          safes = {(0, 0), (0, 1)}, knowledge = []\<rparr>"
  by code_simp

section \<open>No validation of the count\<close>

text \<open>
  Claim C7 as stated fails: on a 1x3 grid \<open>add_knowledge((0,0), 5)\<close> and
  \<open>add_knowledge((0,0), -1)\<close> both return normally, with the sentences {(0,1)} = 5 and
  {(0,1)} = -1 kept in \<open>knowledge\<close>.
\<close>

theorem invalid_count_counterexample:
  "add_knowledge (init_ai 1 3) (0, 0) 5 =
     Inr \<lparr>height = 1, width = 3, moves_made = {(0, 0)}, mines = {}, safes = {(0, 0)},
          knowledge = [\<lparr>cells = {(0, 1)}, count = 5\<rparr>]\<rparr> \<and>
   add_knowledge (init_ai 1 3) (0, 0) (- 1) =
     Inr \<lparr>height = 1, width = 3, moves_made = {(0, 0)}, mines = {}, safes = {(0, 0)},
          knowledge = [\<lparr>cells = {(0, 1)}, count = - 1\<rparr>]\<rparr>"
  by code_simp

text \<open>
  Claim C7, amended: \<open>add_knowledge\<close> checks nothing about the count. It returns normally for
  every engine, cell and count, and the sentence it built stays in \<open>knowledge\<close> whenever it has
  at least one cell, a count other than 0 and a count other than its number of cells.
\<close>

theorem no_count_validation:
  "\<exists>ai'. add_knowledge ai c cnt = Inr ai' \<and>
     (card (cells (new_sentence (record_move ai c) c cnt)) \<noteq> 0 \<and>
      count (new_sentence (record_move ai c) c cnt) \<noteq> 0 \<and>
      int (card (cells (new_sentence (record_move ai c) c cnt))) \<noteq>
        count (new_sentence (record_move ai c) c cnt) \<longrightarrow>
      new_sentence (record_move ai c) c cnt \<in> set (knowledge ai'))"
  by (simp add: add_knowledge_closed Let_def direct_inference_closed)

text \<open>
  The amended claim at the 1x3 grid with the report 5 for (0,0).
\<close>

theorem no_count_validation_witness:
  "\<exists>ai'. add_knowledge (init_ai 1 3) (0, 0) 5 = Inr ai' \<and>
     \<lparr>cells = {(0, 1)}, count = 5\<rparr> \<in> set (knowledge ai')"
proof -
  have n: "new_sentence (record_move (init_ai 1 3) (0, 0)) (0, 0) 5 = \<lparr>cells = {(0, 1)}, count = 5\<rparr>"
    by code_simp
  from no_count_validation [of "init_ai 1 3" "(0, 0)" 5] show ?thesis
    unfolding n by simp
qed

section \<open>Construction of the new sentence\<close>

lemma neighbor_positions_set:
  "set (neighbor_positions c) = {p. \<bar>fst p - fst c\<bar> \<le> 1 \<and> \<bar>snd p - snd c\<bar> \<le> 1}"
proof (rule set_eqI)
  fix p :: cell
  obtain a b where p: "p = (a, b)" by (cases p)
  have "(\<exists>x \<in> {fst c - 1 .. fst c + 1}. (a, b) \<in> Pair x ` {snd c - 1 .. snd c + 1}) \<longleftrightarrow>
        (a \<in> {fst c - 1 .. fst c + 1} \<and> b \<in> {snd c - 1 .. snd c + 1})"
    by blast
  then show "p \<in> set (neighbor_positions c) \<longleftrightarrow>
             p \<in> {p. \<bar>fst p - fst c\<bar> \<le> 1 \<and> \<bar>snd p - snd c\<bar> \<le> 1}"
    unfolding p by (simp add: neighbor_positions_def abs_le_iff) linarith
qed

lemma eligible_record_move:
  "eligible (record_move ai c) c p \<longleftrightarrow>
     p \<in> {q. q \<noteq> c \<and> 0 \<le> fst q \<and> fst q < height ai \<and> 0 \<le> snd q \<and> snd q < width ai} \<and>
     p \<notin> safes ai \<and> p \<notin> moves_made ai"
  by (auto simp: eligible_def record_move_def ai_mark_safe_def)

lemma mines_record_move: "mines (record_move ai c) = mines ai"
  by (simp add: record_move_def ai_mark_safe_def)

text \<open>
  Claim C8. Of the in-bounds neighbours of the queried cell, those known safe or visited
  are left out and not counted; of the others, the known mines are left out and counted and
  the rest form the cell set; the count is the reported count minus the number counted.
  When no known mine is also known safe or visited, that number is the number of neighbours
  in \<open>mines\<close>. The sentence is appended to \<open>knowledge\<close>, whose sentences have had the queried
  cell removed by step 2.
\<close>

theorem sentence_construction:
  "cells (fst (build_sentence (record_move ai c) c cnt)) =
     {p \<in> grid_neighbors ai c. p \<notin> mines ai \<and> p \<notin> safes ai \<and> p \<notin> moves_made ai} \<and>
   count (fst (build_sentence (record_move ai c) c cnt)) =
     cnt - int (card {p \<in> grid_neighbors ai c.
                        p \<in> mines ai \<and> p \<notin> safes ai \<and> p \<notin> moves_made ai}) \<and>
   (mines ai \<inter> (safes ai \<union> moves_made ai) = {} \<longrightarrow>
      count (fst (build_sentence (record_move ai c) c cnt)) =
        cnt - int (card (grid_neighbors ai c \<inter> mines ai))) \<and>
   knowledge (snd (build_sentence (record_move ai c) c cnt)) =
     map (\<lambda>s. mark_safe s c) (knowledge ai) @ [fst (build_sentence (record_move ai c) c cnt)]"
proof -
  let ?ai2 = "record_move ai c"
  let ?ps = "neighbor_positions c"
  let ?K = "{p \<in> grid_neighbors ai c. p \<in> mines ai \<and> p \<notin> safes ai \<and> p \<notin> moves_made ai}"
  have d: "distinct ?ps" by (rule distinct_neighbor_positions)
  have 1: "cells (new_sentence ?ai2 c cnt) =
      {p \<in> grid_neighbors ai c. p \<notin> mines ai \<and> p \<notin> safes ai \<and> p \<notin> moves_made ai}"
    by (auto simp: new_sentence_closed eligible_record_move mines_record_move grid_neighbors_def)
  have "{x. eligible ?ai2 c x \<and> x \<in> mines ?ai2} \<inter> set ?ps = ?K"
    by (auto simp: eligible_record_move mines_record_move grid_neighbors_def)
  then have 2: "count (new_sentence ?ai2 c cnt) = cnt - int (card ?K)"
    by (simp add: new_sentence_closed distinct_length_filter [OF d])
  have 3: "mines ai \<inter> (safes ai \<union> moves_made ai) = {} \<longrightarrow>
      count (new_sentence ?ai2 c cnt) = cnt - int (card (grid_neighbors ai c \<inter> mines ai))"
  proof
    assume "mines ai \<inter> (safes ai \<union> moves_made ai) = {}"
    then have "?K = grid_neighbors ai c \<inter> mines ai" by auto
    with 2 show "count (new_sentence ?ai2 c cnt) = cnt - int (card (grid_neighbors ai c \<inter> mines ai))"
      by simp
  qed
  have 4: "knowledge ?ai2 = map (\<lambda>s. mark_safe s c) (knowledge ai)"
    by (simp add: record_move_def ai_mark_safe_def)
  show ?thesis using 1 2 3 4 by (simp add: build_sentence_def Let_def)
qed

text \<open>
  Claim C8 at an engine of a 1x4 grid that knows the mine (0,2), queried at (0,3) with the
  report 1.
\<close>

theorem sentence_construction_witness:
  "mines \<lparr>height = 1, width = 4, moves_made = {(0, 1)}, mines = {(0, 2)},
        safes = {(0, 1)}, knowledge = [\<lparr>cells = {(0, 0), (0, 2)}, count = 1\<rparr>]\<rparr> \<inter>
     (safes \<lparr>height = 1, width = 4, moves_made = {(0, 1)}, mines = {(0, 2)},
        safes = {(0, 1)}, knowledge = [\<lparr>cells = {(0, 0), (0, 2)}, count = 1\<rparr>]\<rparr> \<union>
      moves_made \<lparr>height = 1, width = 4, moves_made = {(0, 1)}, mines = {(0, 2)},
        safes = {(0, 1)}, knowledge = [\<lparr>cells = {(0, 0), (0, 2)}, count = 1\<rparr>]\<rparr>) = {} \<and>
   build_sentence (record_move \<lparr>height = 1, width = 4, moves_made = {(0, 1)}, mines = {(0, 2)},
        safes = {(0, 1)}, knowledge = [\<lparr>cells = {(0, 0), (0, 2)}, count = 1\<rparr>]\<rparr> (0, 3)) (0, 3) 1 =
     (\<lparr>cells = {}, count = 0\<rparr>,
      \<lparr>height = 1, width = 4, moves_made = {(0, 1), (0, 3)}, mines = {(0, 2)},
        safes = {(0, 1), (0, 3)},
        knowledge = [\<lparr>cells = {(0, 0), (0, 2)}, count = 1\<rparr>, \<lparr>cells = {}, count = 0\<rparr>]\<rparr>)"
proof -
  let ?ai = "\<lparr>height = 1, width = 4, moves_made = {(0, 1)}, mines = {(0, 2)},
        safes = {(0, 1)}, knowledge = [\<lparr>cells = {(0, 0), (0, 2)}, count = 1\<rparr>]\<rparr>"
  have g: "grid_neighbors ?ai (0, 3) \<inter> mines ?ai = {(0, 2)}"
    by (auto simp: grid_neighbors_def neighbor_positions_set)
  have h: "mines ?ai \<inter> (safes ?ai \<union> moves_made ?ai) = {}" by simp
  have e: "build_sentence (record_move ?ai (0, 3)) (0, 3) 1 =
     (\<lparr>cells = {}, count = 0\<rparr>,
      \<lparr>height = 1, width = 4, moves_made = {(0, 1), (0, 3)}, mines = {(0, 2)},
        safes = {(0, 1), (0, 3)},
        knowledge = [\<lparr>cells = {(0, 0), (0, 2)}, count = 1\<rparr>, \<lparr>cells = {}, count = 0\<rparr>]\<rparr>)"
    by code_simp
  from sentence_construction [of ?ai "(0, 3)" 1] h e show ?thesis by simp
qed

section \<open>Move selection\<close>

text \<open>
  Claim C9. Whatever order Python visits \<open>self.safes\<close> in, \<open>make_safe_move\<close> returns a cell of
  \<open>safes\<close> not in \<open>moves_made\<close> when there is one and \<open>None\<close> when there is none, never a cell
  of \<open>moves_made\<close>, and leaves the engine as it was.
\<close>

theorem make_safe_move_correct:
  assumes "set (enum (safes ai)) = safes ai"
  shows "(safes ai - moves_made ai \<noteq> {} \<longrightarrow>
            (\<exists>c. fst (make_safe_move enum ai) = Some c \<and> c \<in> safes ai - moves_made ai)) \<and>
         (safes ai - moves_made ai = {} \<longrightarrow> fst (make_safe_move enum ai) = None) \<and>
         (\<forall>c. fst (make_safe_move enum ai) = Some c \<longrightarrow> c \<notin> moves_made ai) \<and>
         snd (make_safe_move enum ai) = ai"
proof -
  let ?legal = "filter (\<lambda>i. i \<notin> moves_made ai) (enum (safes ai))"
  have s: "set ?legal = safes ai - moves_made ai" using assms by auto
  show ?thesis
  proof (cases ?legal)
    case Nil
    with s have "safes ai - moves_made ai = {}" by simp
    with Nil show ?thesis by (simp add: make_safe_move_def)
  next
    case (Cons x xs)
    with s have "x \<in> safes ai - moves_made ai" by auto
    with Cons show ?thesis by (auto simp: make_safe_move_def)
  qed
qed

text \<open>
  Claim C9 at the engine the 1x3 scenario leaves, with the order (0,0), (0,1).
\<close>

theorem make_safe_move_correct_witness:
  "set ((\<lambda>S. [(0, 0), (0, 1)]) (safes \<lparr>height = 1, width = 3, moves_made = {(0, 0)}, mines = {},
          safes = {(0, 0), (0, 1)}, knowledge = []\<rparr>)) =
     safes \<lparr>height = 1, width = 3, moves_made = {(0, 0)}, mines = {},
          safes = {(0, 0), (0, 1)}, knowledge = []\<rparr> \<and>
   make_safe_move (\<lambda>S. [(0, 0), (0, 1)]) \<lparr>height = 1, width = 3, moves_made = {(0, 0)}, mines = {},
          safes = {(0, 0), (0, 1)}, knowledge = []\<rparr> =
     (Some (0, 1), \<lparr>height = 1, width = 3, moves_made = {(0, 0)}, mines = {},
          safes = {(0, 0), (0, 1)}, knowledge = []\<rparr>)"
proof -
  let ?ai = "\<lparr>height = 1, width = 3, moves_made = {(0, 0)}, mines = {},
          safes = {(0, 0), (0, 1)}, knowledge = []\<rparr>"
  let ?enum = "\<lambda>S :: cell set. [(0, 0), (0, 1) :: cell]"
  have h: "set (?enum (safes ?ai)) = safes ?ai" by simp
  have d: "safes ?ai - moves_made ?ai = {(0, 1)}" by auto
  from make_safe_move_correct [of ?enum ?ai, OF h] h d show ?thesis
    by (auto simp: prod_eq_iff)
qed

lemma make_random_move_closed:
  "make_random_move rand ai =
     Inr (let possible = filter (\<lambda>i. \<not> (i \<in> mines ai \<or> i \<in> moves_made ai)) (all_cells ai);
              k = rand (length possible)
          in (if length possible = 0 \<or> length possible \<le> k then None else Some (possible ! k), ai))"
  by (simp add: make_random_move_def remove_loop_filter Let_def)

text \<open>
  Claim C10. \<open>add_knowledge\<close> returns an engine whose \<open>moves_made\<close>, \<open>mines\<close> and \<open>safes\<close>
  contain the former ones; so do \<open>MinesweeperAI.mark_mine\<close> and \<open>MinesweeperAI.mark_safe\<close>;
  \<open>make_safe_move\<close> and \<open>make_random_move\<close> return the engine unchanged.
\<close>

theorem monotonic_growth:
  "(\<exists>ai'. add_knowledge ai c cnt = Inr ai' \<and>
       moves_made ai \<subseteq> moves_made ai' \<and> mines ai \<subseteq> mines ai' \<and> safes ai \<subseteq> safes ai') \<and>
   moves_made ai \<subseteq> moves_made (ai_mark_mine ai c) \<and> mines ai \<subseteq> mines (ai_mark_mine ai c) \<and>
   safes ai \<subseteq> safes (ai_mark_mine ai c) \<and>
   moves_made ai \<subseteq> moves_made (ai_mark_safe ai c) \<and> mines ai \<subseteq> mines (ai_mark_safe ai c) \<and>
   safes ai \<subseteq> safes (ai_mark_safe ai c) \<and>
   snd (make_safe_move enum ai) = ai \<and>
   (\<exists>move. make_random_move rand ai = Inr (move, ai))"
proof -
  have "\<exists>ai'. add_knowledge ai c cnt = Inr ai' \<and>
       moves_made ai \<subseteq> moves_made ai' \<and> mines ai \<subseteq> mines ai' \<and> safes ai \<subseteq> safes ai'"
    by (auto simp: add_knowledge_closed Let_def direct_inference_closed record_move_def
        ai_mark_safe_def)
  moreover have "\<exists>move. make_random_move rand ai = Inr (move, ai)"
    by (simp add: make_random_move_closed Let_def)
  ultimately show ?thesis
    by (simp add: ai_mark_mine_def ai_mark_safe_def make_safe_move_def Let_def subset_insertI)
qed

end
